theory Spec2Isabelle
  imports Main "HOL-Library.Word" "HOL-Library.Sublist"
begin

section \<open>Strings\<close>

text \<open>
  A JavaScript string is a sequence of 16-bit code units. Literals are written through
  \<open>js\<close>, which reads an ASCII literal as code units.
\<close>

type_synonym jschar = "16 word"
type_synonym jsstr = "jschar list"

definition js :: "string \<Rightarrow> jsstr" where
  "js s = map (\<lambda>c. of_nat (of_char c)) s"

definition LBRACE :: jschar where "LBRACE = 0x7B"
definition RBRACE :: jschar where "RBRACE = 0x7D"
definition DOLLAR :: jschar where "DOLLAR = 0x24"
definition AMPERSAND :: jschar where "AMPERSAND = 0x26"
definition BACKTICK :: jschar where "BACKTICK = 0x60"
definition APOSTROPHE :: jschar where "APOSTROPHE = 0x27"

text \<open>The regular-expression class \<open>\w\<close>: ASCII letters, digits and the underscore.\<close>

definition isWordChar :: "jschar \<Rightarrow> bool" where
  "isWordChar c \<longleftrightarrow>
     (0x30 \<le> c \<and> c \<le> 0x39) \<or> (0x41 \<le> c \<and> c \<le> 0x5A) \<or> c = 0x5F \<or> (0x61 \<le> c \<and> c \<le> 0x7A)"

text \<open>The class \<open>[\w\.]\<close> of the route template pattern.\<close>

definition isNameChar :: "jschar \<Rightarrow> bool" where
  "isNameChar c \<longleftrightarrow> isWordChar c \<or> c = 0x2E"

text \<open>The class \<open>\s\<close>: the white space and line terminator code units of ECMAScript.\<close>

definition isSpace :: "jschar \<Rightarrow> bool" where
  "isSpace c \<longleftrightarrow>
     (0x09 \<le> c \<and> c \<le> 0x0D) \<or> c = 0x20 \<or> c = 0xA0 \<or> c = 0x1680 \<or>
     (0x2000 \<le> c \<and> c \<le> 0x200A) \<or> c = 0x2028 \<or> c = 0x2029 \<or> c = 0x202F \<or>
     c = 0x205F \<or> c = 0x3000 \<or> c = 0xFEFF"

subsection \<open>Searching a string and expanding a replacement text\<close>

text \<open>
  \<open>indexOfSplit pat s\<close> finds the first occurrence of \<open>pat\<close> in \<open>s\<close> and returns the text
  before and after that occurrence.
\<close>

fun indexOfSplit :: "jsstr \<Rightarrow> jsstr \<Rightarrow> (jsstr \<times> jsstr) option" where
  "indexOfSplit pat [] = (if pat = [] then Some ([], []) else None)"
| "indexOfSplit pat (c # cs) =
     (if prefix pat (c # cs) then Some ([], drop (length pat) (c # cs))
      else (case indexOfSplit pat cs of
              None \<Rightarrow> None
            | Some (pre, post) \<Rightarrow> Some (c # pre, post)))"

text \<open>
  The replacement text of \<open>replace\<close> is expanded by the language's GetSubstitution: with a
  string pattern there are no capture groups, so \<open>$$\<close>, \<open>$&\<close>, \<open>$`\<close> and \<open>$'\<close> are the only
  special sequences and every other code unit is copied.
\<close>

fun getSubstitution :: "jsstr \<Rightarrow> jsstr \<Rightarrow> jsstr \<Rightarrow> jsstr \<Rightarrow> jsstr" where
  "getSubstitution matched pre post (d # c # r) =
     (if d = DOLLAR then
        (if c = DOLLAR then DOLLAR # getSubstitution matched pre post r
         else if c = AMPERSAND then matched @ getSubstitution matched pre post r
         else if c = BACKTICK then pre @ getSubstitution matched pre post r
         else if c = APOSTROPHE then post @ getSubstitution matched pre post r
         else d # getSubstitution matched pre post (c # r))
      else d # getSubstitution matched pre post (c # r))"
| "getSubstitution matched pre post r = r"

subsection \<open>The two regular expressions of the route template\<close>

text \<open>
  One attempt of \<open>/{\s*[\w\.]+\s*}/\<close> at the head of the input, returning the matched text
  and the input that follows it. The three classes and the closing brace are pairwise disjoint,
  so the greedy scan is the only way the pattern can match and no backtracking arises.
\<close>

definition matchPlaceholder :: "jsstr \<Rightarrow> (jsstr \<times> jsstr) option" where
  "matchPlaceholder s =
     (case s of
        [] \<Rightarrow> None
      | c # r \<Rightarrow>
          if c \<noteq> LBRACE then None
          else
            let ws1 = takeWhile isSpace r; r1 = dropWhile isSpace r;
                nm = takeWhile isNameChar r1; r2 = dropWhile isNameChar r1;
                ws2 = takeWhile isSpace r2; r3 = dropWhile isSpace r2
            in if nm = [] then None
               else (case r3 of
                       [] \<Rightarrow> None
                     | d # rest \<Rightarrow>
                         if d = RBRACE then Some (c # ws1 @ nm @ ws2 @ [d], rest) else None))"

text \<open>The global search \<open>match(/.../g)\<close>: every match, resuming behind the end of the last one.\<close>

function matchAll :: "jsstr \<Rightarrow> jsstr list" where
  "matchAll [] = []"
| "matchAll (c # cs) =
     (case matchPlaceholder (c # cs) of
        Some (m, rest) \<Rightarrow> m # matchAll rest
      | None \<Rightarrow> matchAll cs)"
  by pat_completeness auto
termination
proof (relation "measure length")
  show "wf (measure length)" by simp
next
  fix c cs
  show "(cs, c # cs) \<in> measure length" by simp
next
  fix c :: jschar and cs x2 m rest
  assume a: "matchPlaceholder (c # cs) = Some x2" and x2: "(m, rest) = x2"
  let ?r3 = "dropWhile isSpace (dropWhile isNameChar (dropWhile isSpace cs))"
  from a x2 obtain d where r3: "?r3 = d # rest"
    by (auto simp: matchPlaceholder_def Let_def split: if_splits list.splits)
  have "length ?r3 \<le> length cs"
    by (meson length_dropWhile_le order_trans)
  with r3 show "(rest, c # cs) \<in> measure length" by simp
qed

text \<open>\<open>match\<close> with the global flag yields \<open>null\<close> (here \<open>None\<close>) when nothing matches.\<close>

definition matchGlobal :: "jsstr \<Rightarrow> jsstr list option" where
  "matchGlobal s = (case matchAll s of [] \<Rightarrow> None | m # ms \<Rightarrow> Some (m # ms))"

text \<open>
  \<open>x.match(/[\w\.]+/)\<close>: the leftmost, longest run of name characters, \<open>null\<close> when there
  is none.
\<close>

definition matchName :: "jsstr \<Rightarrow> jsstr option" where
  "matchName x =
     (case dropWhile (\<lambda>c. \<not> isNameChar c) x of
        [] \<Rightarrow> None
      | c # r \<Rightarrow> Some (takeWhile isNameChar (c # r)))"

section \<open>Values and errors\<close>

text \<open>
  The values that request data, positional URL parameters, responses and thrown values
  are made of. An object is a property list; arrays and functions are not considered.
\<close>

datatype jsval =
    JUndefined
  | JNull
  | JBool bool
  | JNum int
  | JStr jsstr
  | JObj "(jsstr \<times> jsval) list"

type_synonym jsobject = "(jsstr \<times> jsval) list"

text \<open>
  What can be thrown: a TypeError of the language, the error of \<open>request\<close> for a type that
  is not allowed, and whatever value a callback or the transport throws.
\<close>

datatype error = TypeError | RequestTypeNotAllowed | Thrown jsval

subsection \<open>\<open>String.prototype.replace\<close> with a string pattern\<close>

text \<open>
  The second argument of \<open>replace\<close> is either a function, which is called with the matched
  text, its position and the whole string (and with \<open>this\<close> undefined), its result being
  converted to a string and inserted as it is, or any other value, whose string
  conversion is expanded by GetSubstitution. Nothing is called when the pattern does not
  occur. A replacer is given by the string it yields or the error it throws.
\<close>

datatype replaceValue =
    Text jsstr
  | Replacer "jsstr \<Rightarrow> nat \<Rightarrow> jsstr \<Rightarrow> error + jsstr"

definition replace :: "jsstr \<Rightarrow> jsstr \<Rightarrow> replaceValue \<Rightarrow> error + jsstr" where
  "replace s pat replaceValue =
     (case indexOfSplit pat s of
        None \<Rightarrow> Inr s
      | Some (pre, post) \<Rightarrow>
          (case replaceValue of
             Text t \<Rightarrow> Inr (pre @ getSubstitution pat pre post t @ post)
           | Replacer f \<Rightarrow>
               (case f pat (length pre) s of
                  Inl e \<Rightarrow> Inl e
                | Inr t \<Rightarrow> Inr (pre @ t @ post))))"

section \<open>CustomRoute\<close>

text \<open>
  Modelled from the spec: the \<open>RequestType\<close> enumeration is declared in a module that is
  not part of the sources at hand. The spec gives the closed set GET, POST, PUT, PATCH,
  HEAD, DELETE and has the \<open>type\<close> getter of a resolved route yield the verb's name.
\<close>

datatype RequestType = GET | POST | PUT | PATCH | HEAD | DELETE

fun RequestType_name :: "RequestType \<Rightarrow> jsstr" where
  "RequestType_name GET = js ''GET''"
| "RequestType_name POST = js ''POST''"
| "RequestType_name PUT = js ''PUT''"
| "RequestType_name PATCH = js ''PATCH''"
| "RequestType_name HEAD = js ''HEAD''"
| "RequestType_name DELETE = js ''DELETE''"

text \<open>
  A route definition as the caller supplies it: each field may be absent. Route
  parameters are given by the property list of their own properties, from placeholder
  name to value; a value is kept as the string that the language's string conversion
  gives for it (the form in which \<open>replace\<close> uses it), and own values that are functions
  are not considered.
\<close>

record routeDefinition =
  def_url :: "jsstr option"
  def_type :: "RequestType option"
  def_name :: "jsstr option"

type_synonym routeParams = "(jsstr \<times> jsstr) list"

record route =
  route_url :: jsstr
  route_type :: RequestType
  route_name :: jsstr

record customRoute =
  route :: route
  routeParams :: routeParams

definition emptyDefinition :: routeDefinition where
  "emptyDefinition = \<lparr>def_url = None, def_type = None, def_name = None\<rparr>"

text \<open>The constructor: \<open>Object.assign\<close> of the supplied fields over the defaults.\<close>

definition CustomRoute :: "routeDefinition \<Rightarrow> routeParams option \<Rightarrow> customRoute" where
  "CustomRoute r cfg =
     \<lparr>route = \<lparr>route_url = (case def_url r of None \<Rightarrow> [] | Some u \<Rightarrow> u),
               route_type = (case def_type r of None \<Rightarrow> GET | Some t \<Rightarrow> t),
               route_name = (case def_name r of None \<Rightarrow> [] | Some n \<Rightarrow> n)\<rparr>,
      routeParams = (case cfg of None \<Rightarrow> [] | Some p \<Rightarrow> p)\<rparr>"

definition rawURL :: "customRoute \<Rightarrow> jsstr" where
  "rawURL r = route_url (route r)"

definition name :: "customRoute \<Rightarrow> jsstr" where
  "name r = route_name (route r)"

definition type :: "customRoute \<Rightarrow> jsstr" where
  "type r = RequestType_name (route_type (route r))"

text \<open>
  \<open>params.map(x => x.match(/[\w\.]+/)[0])\<close>: indexing \<open>null\<close> would raise a TypeError.
\<close>

fun extractNames :: "jsstr list \<Rightarrow> error + jsstr list" where
  "extractNames [] = Inr []"
| "extractNames (x # xs) =
     (case matchName x of
        None \<Rightarrow> Inl TypeError
      | Some n \<Rightarrow> (case extractNames xs of Inl e \<Rightarrow> Inl e | Inr ns \<Rightarrow> Inr (n # ns)))"

definition urlParams :: "customRoute \<Rightarrow> error + jsstr list" where
  "urlParams r =
     (case matchGlobal (rawURL r) of
        None \<Rightarrow> Inr []
      | Some params \<Rightarrow> extractNames params)"

text \<open>
  The route params are a plain object: the own properties given by the property list, over
  \<open>Object.prototype\<close>. \<open>this.config.routeParams[param]\<close> reads an own property first and
  an inherited member otherwise, and yields \<open>undefined\<close> when there is neither.

  The members of \<open>Object.prototype\<close> (ECMA-262, sections 20.1.3 and B.2.2), by what
  \<open>replace\<close> obtains from each. All but \<open>__proto__\<close> are functions and act as replacers, called
  with \<open>this\<close> undefined and the matched text as first argument: \<open>constructor\<close> converts the
  matched text to an object, whose string conversion is that text again; \<open>toString\<close> yields
  \<open>[object Undefined]\<close>; \<open>isPrototypeOf\<close> yields \<open>false\<close> for an argument that is no
  object; the others begin by converting \<open>this\<close> to an object (or require a function as
  second argument) and throw a TypeError. \<open>__proto__\<close> reads the prototype itself, an object
  whose string conversion is \<open>[object Object]\<close>.
\<close>

definition objectPrototypeNames :: "jsstr list" where
  "objectPrototypeNames =
     [js ''constructor'', js ''toString'', js ''isPrototypeOf'', js ''hasOwnProperty'',
      js ''propertyIsEnumerable'', js ''valueOf'', js ''toLocaleString'',
      js ''__defineGetter__'', js ''__defineSetter__'', js ''__lookupGetter__'',
      js ''__lookupSetter__'', js ''__proto__'']"

definition objectPrototype :: "jsstr \<Rightarrow> replaceValue option" where
  "objectPrototype p =
     (if p = js ''constructor'' then Some (Replacer (\<lambda>matched position string. Inr matched))
      else if p = js ''toString''
        then Some (Replacer (\<lambda>matched position string. Inr (js ''[object Undefined]'')))
      else if p = js ''isPrototypeOf''
        then Some (Replacer (\<lambda>matched position string. Inr (js ''false'')))
      else if p = js ''__proto__'' then Some (Text (js ''[object Object]''))
      else if p \<in> set objectPrototypeNames
        then Some (Replacer (\<lambda>matched position string. Inl TypeError))
      else None)"

text \<open>
  \<open>this.config.routeParams[param]\<close> as \<open>replace\<close> receives it. An own value is kept as the
  string that the language's string conversion gives for it.
\<close>

definition paramValue :: "routeParams \<Rightarrow> jsstr \<Rightarrow> replaceValue" where
  "paramValue ps param =
     (case map_of ps param of
        Some v \<Rightarrow> Text v
      | None \<Rightarrow>
          (case objectPrototype param of
             Some member \<Rightarrow> member
           | None \<Rightarrow> Text (js ''undefined'')))"

text \<open>The \<open>forEach\<close> over the extracted names; an error thrown by \<open>replace\<close> ends it.\<close>

fun replaceEach :: "routeParams \<Rightarrow> jsstr list \<Rightarrow> jsstr \<Rightarrow> error + jsstr" where
  "replaceEach ps [] u = Inr u"
| "replaceEach ps (param # params) u =
     (case replace u (LBRACE # param @ [RBRACE]) (paramValue ps param) of
        Inl e \<Rightarrow> Inl e
      | Inr u' \<Rightarrow> replaceEach ps params u')"

definition replaceURLParams :: "customRoute \<Rightarrow> error + jsstr" where
  "replaceURLParams r =
     (case urlParams r of
        Inl e \<Rightarrow> Inl e
      | Inr params \<Rightarrow>
          if params \<noteq> [] \<and> routeParams r \<noteq> []
          then replaceEach (routeParams r) params (rawURL r)
          else Inr (rawURL r))"

definition url :: "customRoute \<Rightarrow> error + jsstr" where
  "url r = replaceURLParams r"

subsection \<open>Placeholders as the specification describes them\<close>


definition placeholderAt :: "jsstr \<Rightarrow> jsstr option" where
  "placeholderAt s =
     (case s of
        [] \<Rightarrow> None
      | c # r \<Rightarrow>
          let nm = takeWhile isNameChar (dropWhile isSpace r);
              closing = dropWhile isSpace (dropWhile isNameChar (dropWhile isSpace r))
          in if c = LBRACE \<and> nm \<noteq> [] \<and> (case closing of [] \<Rightarrow> False | d # _ \<Rightarrow> d = RBRACE)
             then Some nm else None)"

fun placeholderNames :: "jsstr \<Rightarrow> jsstr list" where
  "placeholderNames [] = []"
| "placeholderNames (c # cs) =
     (case placeholderAt (c # cs) of
        Some n \<Rightarrow> n # placeholderNames cs
      | None \<Rightarrow> placeholderNames cs)"

subsection \<open>Resolution described step by step\<close>





section \<open>Request\<close>

subsection \<open>Request data as objects\<close>

fun getProp :: "jsobject \<Rightarrow> jsstr \<Rightarrow> jsval" where
  "getProp [] k = JUndefined"
| "getProp ((k', v) # ps) k = (if k' = k then v else getProp ps k)"

fun setProp :: "jsobject \<Rightarrow> jsstr \<Rightarrow> jsval \<Rightarrow> jsobject" where
  "setProp [] k v = [(k, v)]"
| "setProp ((k', v') # ps) k v = (if k' = k then (k, v) # ps else (k', v') # setProp ps k v)"

text \<open>
  \<open>defaultsDeep object source\<close> of the lodash library, which the request imports: each
  property of \<open>source\<close> is assigned to \<open>object\<close> where the property of \<open>object\<close> resolves
  to \<open>undefined\<close>; where both hold objects the assignment recurses; every other property
  of \<open>object\<close> is kept. The first argument is the destination and is what is returned.
\<close>

fun defaultsDeep :: "jsobject \<Rightarrow> jsobject \<Rightarrow> jsobject" where
  "defaultsDeep object [] = object"
| "defaultsDeep object ((k, srcValue) # source) =
     defaultsDeep
       (case srcValue of
          JObj sps \<Rightarrow>
            (case getProp object k of
               JUndefined \<Rightarrow> setProp object k (JObj (defaultsDeep [] sps))
             | JObj ops \<Rightarrow> setProp object k (JObj (defaultsDeep ops sps))
             | _ \<Rightarrow> object)
        | _ \<Rightarrow> (if getProp object k = JUndefined then setProp object k srcValue else object))
       source"

subsection \<open>Configuration, instance state and collaborators\<close>

text \<open>
  A configured callback completes by returning or by throwing a value. The configuration
  holds the \<open>afterRequest\<close> and \<open>onError\<close> callbacks by how they complete on each argument.
\<close>

datatype completion = Returns | Throws jsval

record config =
  allowedRequestTypes :: "jsstr list"
  debug :: bool
  trailingSlash :: bool
  baseURL :: jsstr
  afterRequestHook :: "jsval \<Rightarrow> completion"
  onErrorHook :: "jsval \<Rightarrow> completion"

text \<open>
  What the instance does to the outside is recorded in order: the three configured hooks,
  the transport, the debugger's fake request, and the two resets of the instance. The
  hooks are opaque callbacks that leave the instance alone; the \<open>beforeRequest\<close> hook is
  taken to return.
\<close>

datatype event =
    BeforeRequestHook jsstr jsstr
  | HttpCall jsstr jsstr "jsval list"
  | FakeRequestCall jsstr jsstr
  | AfterRequestHook jsval
  | OnErrorHook jsval
  | ResetRequestDataCall
  | ResetURLParamsCall

text \<open>
  The instance \<open>this\<close>. \<open>pendingUrlParams\<close> is the field \<open>this.urlParams\<close>: \<open>None\<close> when it
  is falsy, an array otherwise (an empty array is truthy).
\<close>

record rapid =
  config :: config
  customRoutes :: "(jsstr \<times> routeDefinition) list"
  requestData :: jsobject
  pendingUrlParams :: "jsval list option"
  calls :: "event list"

text \<open>
  Functions the request imports or inherits and whose code is elsewhere: the URL
  utilities, the shaping of the transport's arguments, the URL join of the base class and
  the debugger's fake request. \<open>toLowerCase\<close> is the language's own lower-casing, which
  rests on the Unicode tables. \<open>http\<close> is the call \<open>this.http[type].call(this, url, ...)\<close> of
  the transport: \<open>None\<close> when it returns its promise, and the error when it throws instead
  (as it does when the transport has no method of that name).
\<close>

record collaborators =
  toLowerCase :: "jsstr \<Rightarrow> jsstr"
  sanitizeUrl :: "jsstr \<Rightarrow> bool \<Rightarrow> jsstr"
  parseRequestData :: "jsstr \<Rightarrow> jsobject \<Rightarrow> config \<Rightarrow> jsval list"
  makeUrl :: "config \<Rightarrow> jsval list \<Rightarrow> jsstr"
  fakeRequest :: "jsstr \<Rightarrow> jsstr \<Rightarrow> jsval"
  http :: "jsstr \<Rightarrow> jsstr \<Rightarrow> jsval list \<Rightarrow> error option"

text \<open>
  Modelled from the spec: \<open>isAllowedRequestType\<close> lives in the request utilities, which
  are not part of the sources at hand. The spec has the verb checked against the
  configured allow-list of verbs.
\<close>

definition isAllowedRequestType :: "jsstr \<Rightarrow> config \<Rightarrow> bool" where
  "isAllowedRequestType ty cfg \<longleftrightarrow> ty \<in> set (allowedRequestTypes cfg)"

text \<open>
  Modelled from the spec: \<open>resetRequestData\<close> and \<open>resetURLParams\<close> belong to the base
  class, which is not part of the sources at hand. The spec has the first clear the
  accumulated data, the params and the options to empty containers, and the second clear
  the pending positional URL parameters.
\<close>

definition emptyRequestData :: jsobject where
  "emptyRequestData = [(js ''params'', JObj []), (js ''options'', JObj [])]"


definition resetURLParams :: "rapid \<Rightarrow> rapid" where
  "resetURLParams this =
     this\<lparr>pendingUrlParams := None, calls := calls this @ [ResetURLParamsCall]\<rparr>"

subsection \<open>Hooks\<close>

definition beforeRequest :: "rapid \<Rightarrow> jsstr \<Rightarrow> jsstr \<Rightarrow> rapid" where
  "beforeRequest this ty u = this\<lparr>calls := calls this @ [BeforeRequestHook ty u]\<rparr>"



subsection \<open>Making the request\<close>

text \<open>
  \<open>request\<close> either throws, or returns what the fake request returned, or returns the
  promise it has built around the transport call. When that call throws, the promise is
  rejected at once and no handler is attached (\<open>Failed\<close>); otherwise the promise waits for
  the transport's promise (\<open>Pending\<close>).
\<close>

datatype promise = FakeResult jsval | Pending | Failed error


definition request :: "collaborators \<Rightarrow> rapid \<Rightarrow> jsstr \<Rightarrow> jsstr \<Rightarrow> rapid \<times> (error + promise)" where
  "request env this ty0 u =
     (let ty = toLowerCase env ty0 in
      if \<not> isAllowedRequestType ty (config this) then (this, Inl RequestTypeNotAllowed)
      else
        let this1 = beforeRequest this ty u in
        if debug (config this1)
        then (this1\<lparr>calls := calls this1 @ [FakeRequestCall ty u]\<rparr>,
              Inr (FakeResult (fakeRequest env ty u)))
        else
          let su = sanitizeUrl env u (trailingSlash (config this1));
              args = parseRequestData env ty (requestData this1) (config this1);
              this2 = this1\<lparr>calls := calls this1 @ [HttpCall ty su args]\<rparr>
          in (case http env ty su args of
                None \<Rightarrow> (this2, Inr Pending)
              | Some e \<Rightarrow> (this2, Inr (Failed e))))"



text \<open>
  \<open>buildRequest\<close>: the positional parameters are an array, as the verb methods pass them
  (a single value passed instead behaves as the array holding it).
\<close>

definition buildRequest ::
  "collaborators \<Rightarrow> rapid \<Rightarrow> jsstr \<Rightarrow> jsval list \<Rightarrow> rapid \<times> (error + promise)" where
  "buildRequest env this ty params =
     (case pendingUrlParams this of
        Some pending \<Rightarrow>
          (let this1 = resetURLParams this
           in request env this1 ty (makeUrl env (config this1) (pending @ params)))
      | None \<Rightarrow> request env this ty (makeUrl env (config this) params))"

text \<open>
  \<open>applyCallableRequestMethods\<close> installs one method for each allowed request type; a
  type without a method cannot be called.
\<close>

definition callableRequestMethod ::
  "collaborators \<Rightarrow> rapid \<Rightarrow> jsstr \<Rightarrow> jsval list \<Rightarrow> rapid \<times> (error + promise)" where
  "callableRequestMethod env this requestType params =
     (if requestType \<in> set (allowedRequestTypes (config this))
      then buildRequest env this requestType params
      else (this, Inl TypeError))"

subsection \<open>Custom routes\<close>

definition getCustomRoute :: "rapid \<Rightarrow> jsstr \<Rightarrow> routeParams \<Rightarrow> customRoute" where
  "getCustomRoute this n rps =
     (case map_of (customRoutes this) n of
        Some d \<Rightarrow> CustomRoute d (Some rps)
      | None \<Rightarrow> CustomRoute emptyDefinition None)"


subsection \<open>Request data\<close>

definition withData :: "rapid \<Rightarrow> jsobject \<Rightarrow> rapid" where
  "withData this d = this\<lparr>requestData := defaultsDeep d (requestData this)\<rparr>"



text \<open>A value that is neither \<open>undefined\<close> nor an object.\<close>

definition isDefinedScalar :: "jsval \<Rightarrow> bool" where
  "isDefinedScalar v = (case v of JUndefined \<Rightarrow> False | JObj _ \<Rightarrow> False | _ \<Rightarrow> True)"

section \<open>Example inputs\<close>

text \<open>
  A configuration, stand-ins for the collaborators and an instance, on which the theorems
  below are instantiated. The stand-in for \<open>toLowerCase\<close> lowers the ASCII letters, the
  one for \<open>makeUrl\<close> joins the string segments with a slash, the transport returns its
  promise and the callbacks return.
\<close>

definition exampleConfig :: config where
  "exampleConfig =
     \<lparr>allowedRequestTypes = [js ''get'', js ''post''], debug = False, trailingSlash = False,
      baseURL = js ''http://api'', afterRequestHook = (\<lambda>response. Returns),
      onErrorHook = (\<lambda>err. Returns)\<rparr>"

fun exampleJoin :: "jsstr list \<Rightarrow> jsstr" where
  "exampleJoin [] = []"
| "exampleJoin [x] = x"
| "exampleJoin (x # y # r) = x @ js ''/'' @ exampleJoin (y # r)"

definition exampleCollaborators :: collaborators where
  "exampleCollaborators =
     \<lparr>toLowerCase = map (\<lambda>c. if 0x41 \<le> c \<and> c \<le> 0x5A then c + 0x20 else c),
      sanitizeUrl = (\<lambda>u slash. u),
      parseRequestData = (\<lambda>ty d cfg. [JObj d]),
      makeUrl = (\<lambda>cfg vs. exampleJoin (concat (map (\<lambda>v. case v of JStr x \<Rightarrow> [x] | _ \<Rightarrow> []) vs))),
      fakeRequest = (\<lambda>ty u. JStr u),
      http = (\<lambda>ty u args. None)\<rparr>"

definition exampleInstance :: rapid where
  "exampleInstance =
     \<lparr>config = exampleConfig,
      customRoutes =
        [(js ''user'', \<lparr>def_url = Some (js ''users/{id}''), def_type = Some GET,
                        def_name = Some (js ''user'')\<rparr>)],
      requestData = emptyRequestData,
      pendingUrlParams = Some [JStr (js ''users'')],
      calls = []\<rparr>"

section \<open>Properties of the character classes and the placeholder pattern\<close>

lemma space_not_name: "isSpace c \<Longrightarrow> \<not> isNameChar c"
  unfolding isSpace_def isNameChar_def isWordChar_def
  by (auto simp: word_le_nat_alt)

lemma brace_classes:
  "\<not> isNameChar LBRACE" "\<not> isSpace LBRACE" "\<not> isNameChar RBRACE" "\<not> isSpace RBRACE"
  by (simp_all add: isNameChar_def isWordChar_def isSpace_def LBRACE_def RBRACE_def)

lemma braces_differ: "LBRACE \<noteq> RBRACE"
  by (simp add: LBRACE_def RBRACE_def)


text \<open>Where the pattern fails to match, no token begins.\<close>

lemma matchPlaceholder_None: "matchPlaceholder s = None \<Longrightarrow> placeholderAt s = None"
proof (cases s)
  case Nil
  then show ?thesis by (simp add: placeholderAt_def)
next
  case (Cons c r)
  assume a: "matchPlaceholder s = None"
  show ?thesis
  proof (cases "dropWhile isSpace (dropWhile isNameChar (dropWhile isSpace r))")
    case Nil
    show ?thesis by (simp add: Cons Nil placeholderAt_def Let_def)
  next
    case (Cons d rest)
    from a show ?thesis
      by (simp add: \<open>s = c # r\<close> Cons placeholderAt_def matchPlaceholder_def Let_def
               split: if_splits)
  qed
qed

text \<open>Where it matches, the matched text is a token, and the input splits into it and the rest.\<close>

lemma matchPlaceholder_Some:
  assumes "matchPlaceholder s = Some (m, rest)"
  shows "\<exists>ws1 nm ws2. m = LBRACE # ws1 @ nm @ ws2 @ [RBRACE] \<and> s = m @ rest \<and>
           (\<forall>c\<in>set ws1. isSpace c) \<and> nm \<noteq> [] \<and> (\<forall>c\<in>set nm. isNameChar c) \<and>
           (\<forall>c\<in>set ws2. isSpace c) \<and> placeholderAt s = Some nm"
proof -
  from assms obtain c r where s: "s = c # r"
    by (cases s) (auto simp: matchPlaceholder_def)
  define r1 where "r1 = dropWhile isSpace r"
  define r2 where "r2 = dropWhile isNameChar r1"
  define r3 where "r3 = dropWhile isSpace r2"
  from assms s have c: "c = LBRACE" and nm: "takeWhile isNameChar r1 \<noteq> []"
    and r3: "r3 = RBRACE # rest"
    and m: "m = LBRACE # takeWhile isSpace r @ takeWhile isNameChar r1 @ takeWhile isSpace r2 @ [RBRACE]"
    by (auto simp: matchPlaceholder_def Let_def r1_def r2_def r3_def split: if_splits list.splits)
  have "r = takeWhile isSpace r @ r1" by (simp add: r1_def)
  also have "r1 = takeWhile isNameChar r1 @ r2" by (simp add: r2_def)
  also have "r2 = takeWhile isSpace r2 @ r3" by (simp add: r3_def)
  finally have r: "r = takeWhile isSpace r @ takeWhile isNameChar r1 @ takeWhile isSpace r2 @ RBRACE # rest"
    using r3 by simp
  have sm: "s = m @ rest" using s c m r by simp
  have pa: "placeholderAt s = Some (takeWhile isNameChar r1)"
    using s c nm r3 by (simp add: placeholderAt_def Let_def r1_def r2_def r3_def)
  show ?thesis
    apply (rule exI[of _ "takeWhile isSpace r"])
    apply (rule exI[of _ "takeWhile isNameChar r1"])
    apply (rule exI[of _ "takeWhile isSpace r2"])
    using m sm nm pa by (auto dest: set_takeWhileD)
qed

text \<open>The second pattern recovers the name from the matched token.\<close>

lemma matchName_placeholder:
  assumes "\<forall>c\<in>set ws1. isSpace c" "nm \<noteq> []" "\<forall>c\<in>set nm. isNameChar c" "\<forall>c\<in>set ws2. isSpace c"
  shows "matchName (LBRACE # ws1 @ nm @ ws2 @ [RBRACE]) = Some nm"
proof -
  have d1: "dropWhile (\<lambda>c. \<not> isNameChar c) (LBRACE # ws1 @ nm @ ws2 @ [RBRACE]) = nm @ ws2 @ [RBRACE]"
    using assms by (cases nm) (auto simp: brace_classes space_not_name dropWhile_append)
  have t: "takeWhile isNameChar (nm @ ws2 @ [RBRACE]) = nm"
    using assms by (cases ws2) (auto simp: brace_classes space_not_name takeWhile_append)
  from assms(2) obtain a as where "nm = a # as" by (cases nm) auto
  then show ?thesis using d1 t by (simp add: matchName_def)
qed

lemma placeholderAt_not_brace: "c \<noteq> LBRACE \<Longrightarrow> placeholderAt (c # cs) = None"
  by (simp add: placeholderAt_def Let_def)

lemma placeholderNames_skip:
  "LBRACE \<notin> set xs \<Longrightarrow> placeholderNames (xs @ ys) = placeholderNames ys"
  by (induction xs) (auto simp: placeholderAt_not_brace)

lemma placeholderNames_no_brace: "LBRACE \<notin> set s \<Longrightarrow> placeholderNames s = []"
  using placeholderNames_skip[of s "[]"] by simp

text \<open>
  The global search resumes behind each match, yet it misses no token: a token holds no
  opening brace but its first code unit, so no token begins inside another.
\<close>

lemma extractNames_matchAll: "extractNames (matchAll s) = Inr (placeholderNames s)"
proof (induction s rule: matchAll.induct)
  case 1
  show ?case by simp
next
  case (2 c cs)
  show ?case
  proof (cases "matchPlaceholder (c # cs)")
    case None
    with 2 show ?thesis by (simp add: matchPlaceholder_None)
  next
    case (Some p)
    obtain m rest where p: "p = (m, rest)" by (cases p)
    from matchPlaceholder_Some[OF Some[unfolded p]]
    obtain ws1 nm ws2 where m: "m = LBRACE # ws1 @ nm @ ws2 @ [RBRACE]"
      and s: "c # cs = m @ rest" and ws1: "\<forall>c\<in>set ws1. isSpace c" and nm: "nm \<noteq> []"
      and nmc: "\<forall>c\<in>set nm. isNameChar c" and ws2: "\<forall>c\<in>set ws2. isSpace c"
      and pa: "placeholderAt (c # cs) = Some nm" by blast
    have nob: "LBRACE \<notin> set (ws1 @ nm @ ws2 @ [RBRACE])"
      using ws1 nmc ws2 brace_classes braces_differ by auto
    have cs: "cs = (ws1 @ nm @ ws2 @ [RBRACE]) @ rest" using s m by simp
    have "placeholderNames cs = placeholderNames rest"
      unfolding cs using nob by (rule placeholderNames_skip)
    moreover have "matchName m = Some nm"
      unfolding m using ws1 nm nmc ws2 by (rule matchName_placeholder)
    moreover have "extractNames (matchAll rest) = Inr (placeholderNames rest)"
      using 2(2)[OF Some p[symmetric]] by simp
    ultimately show ?thesis using Some p pa by simp
  qed
qed

lemma urlParams_placeholderNames: "urlParams r = Inr (placeholderNames (rawURL r))"
proof (cases "matchAll (rawURL r)")
  case Nil
  with extractNames_matchAll[of "rawURL r"] show ?thesis
    by (simp add: urlParams_def matchGlobal_def)
next
  case (Cons m ms)
  with extractNames_matchAll[of "rawURL r"] show ?thesis
    by (simp add: urlParams_def matchGlobal_def)
qed



section \<open>Properties of the replacement and of the merge\<close>









lemma getProp_setProp: "getProp (setProp ps k v) k' = (if k' = k then v else getProp ps k')"
  by (induction ps) auto

text \<open>A defined scalar property of the destination survives the merge.\<close>

lemma defaultsDeep_keeps:
  "isDefinedScalar (getProp object k) \<Longrightarrow> getProp (defaultsDeep object source) k = getProp object k"
proof (induction object source rule: defaultsDeep.induct)
  case (1 object)
  show ?case by simp
next
  case (2 object k' srcValue source)
  let ?o = "(case srcValue of
          JObj sps \<Rightarrow>
            (case getProp object k' of
               JUndefined \<Rightarrow> setProp object k' (JObj (defaultsDeep [] sps))
             | JObj ops \<Rightarrow> setProp object k' (JObj (defaultsDeep ops sps))
             | _ \<Rightarrow> object)
        | _ \<Rightarrow> (if getProp object k' = JUndefined then setProp object k' srcValue else object))"
  have same: "getProp ?o k = getProp object k"
    using "2.prems"
    by (auto simp: getProp_setProp isDefinedScalar_def split: jsval.splits)
  have "getProp (defaultsDeep ?o source) k = getProp ?o k"
    using "2.IH"(3) same "2.prems" by simp
  with same show ?case by simp
qed

text \<open>A property that the destination lacks is filled in from the source.\<close>

lemma defaultsDeep_fills:
  "getProp object k = JUndefined \<Longrightarrow> isDefinedScalar (getProp source k) \<Longrightarrow>
     getProp (defaultsDeep object source) k = getProp source k"
proof (induction object source rule: defaultsDeep.induct)
  case (1 object)
  then show ?case by (simp add: isDefinedScalar_def)
next
  case (2 object k' srcValue source)
  let ?o = "(case srcValue of
          JObj sps \<Rightarrow>
            (case getProp object k' of
               JUndefined \<Rightarrow> setProp object k' (JObj (defaultsDeep [] sps))
             | JObj ops \<Rightarrow> setProp object k' (JObj (defaultsDeep ops sps))
             | _ \<Rightarrow> object)
        | _ \<Rightarrow> (if getProp object k' = JUndefined then setProp object k' srcValue else object))"
  show ?case
  proof (cases "k' = k")
    case True
    with "2.prems" have sv: "isDefinedScalar srcValue" by simp
    then have o: "?o = setProp object k srcValue"
      using True "2.prems"(1) by (auto simp: isDefinedScalar_def split: jsval.splits)
    have "isDefinedScalar (getProp ?o k)"
      unfolding o using sv by (simp add: getProp_setProp)
    then have kept: "getProp (defaultsDeep ?o source) k = getProp ?o k"
      by (rule defaultsDeep_keeps)
    have "getProp (defaultsDeep object ((k', srcValue) # source)) k =
          getProp (defaultsDeep ?o source) k"
      by (simp only: defaultsDeep.simps)
    also have "\<dots> = getProp ?o k" by (rule kept)
    also have "\<dots> = srcValue" unfolding o by (simp add: getProp_setProp)
    also have "srcValue = getProp ((k', srcValue) # source) k" using True by simp
    finally show ?thesis .
  next
    case False
    have u: "getProp ?o k = JUndefined"
      using False "2.prems"(1) by (auto simp: getProp_setProp split: jsval.splits)
    have "isDefinedScalar (getProp source k)"
      using False "2.prems"(2) by simp
    then have filled: "getProp (defaultsDeep ?o source) k = getProp source k"
      using "2.IH"(3) u by simp
    have "getProp (defaultsDeep object ((k', srcValue) # source)) k =
          getProp (defaultsDeep ?o source) k"
      by (simp only: defaultsDeep.simps)
    also have "\<dots> = getProp source k" by (rule filled)
    also have "\<dots> = getProp ((k', srcValue) # source) k" using False by simp
    finally show ?thesis .
  qed
qed

lemma getCustomRoute_unknown:
  "n \<notin> fst ` set (customRoutes this) \<Longrightarrow>
     getCustomRoute this n rps = CustomRoute emptyDefinition None"
proof -
  assume "n \<notin> fst ` set (customRoutes this)"
  then have "map_of (customRoutes this) n = None" by (simp add: map_of_eq_None_iff)
  then show ?thesis by (simp add: getCustomRoute_def)
qed

lemma url_empty_route: "url (CustomRoute emptyDefinition None) = Inr []"
  by (simp add: url_def replaceURLParams_def urlParams_placeholderNames rawURL_def
      CustomRoute_def emptyDefinition_def)

lemma request_keeps:
  "pendingUrlParams (fst (request env this ty u)) = pendingUrlParams this"
  "config (fst (request env this ty u)) = config this"
  by (simp_all add: request_def Let_def beforeRequest_def split: option.splits)

section \<open>The claims\<close>

text \<open>
  Claim C7. For every route, the \<open>urlParams\<close> getter raises nothing and returns the names
  of the placeholder tokens of the template (word characters and dots between braces),
  in the order in which the tokens appear, one entry for every occurrence of a token. On
  \<open>/users/{id}/posts/{postId}\<close> it returns \<open>id\<close>, then \<open>postId\<close>; on a template without an
  opening brace, hence without placeholder, it returns the empty sequence.
\<close>

theorem urlParams_placeholders_in_order:
  "urlParams r = Inr (placeholderNames (rawURL r)) \<and>
   urlParams (CustomRoute \<lparr>def_url = Some (js ''/users/{id}/posts/{postId}''),
                           def_type = None, def_name = None\<rparr> None)
     = Inr [js ''id'', js ''postId''] \<and>
   (LBRACE \<notin> set (rawURL r) \<longrightarrow> urlParams r = Inr [])"
proof (intro conjI impI)
  show "urlParams r = Inr (placeholderNames (rawURL r))"
    by (rule urlParams_placeholderNames)
  show "urlParams (CustomRoute \<lparr>def_url = Some (js ''/users/{id}/posts/{postId}''),
                           def_type = None, def_name = None\<rparr> None)
     = Inr [js ''id'', js ''postId'']"
    by code_simp
  show "urlParams r = Inr []" if "LBRACE \<notin> set (rawURL r)"
    using that by (simp add: urlParams_placeholderNames placeholderNames_no_brace)
qed

text \<open>
  Instances: a template without placeholder, and one with a repeated token, a token padded
  with blanks, a dotted name and an empty pair of braces.
\<close>

theorem urlParams_placeholders_in_order_witness:
  "LBRACE \<notin> set (rawURL (CustomRoute \<lparr>def_url = Some (js ''/users''), def_type = None,
                                        def_name = None\<rparr> None)) \<and>
   urlParams (CustomRoute \<lparr>def_url = Some (js ''/users''), def_type = None,
                           def_name = None\<rparr> None) = Inr [] \<and>
   urlParams (CustomRoute \<lparr>def_url = Some (js ''/a/{id}/{ id }/{x.y}/{}''), def_type = None,
                           def_name = None\<rparr> None)
     = Inr [js ''id'', js ''id'', js ''x.y'']"
proof -
  let ?r = "CustomRoute \<lparr>def_url = Some (js ''/users''), def_type = None, def_name = None\<rparr> None"
  let ?q = "CustomRoute \<lparr>def_url = Some (js ''/a/{id}/{ id }/{x.y}/{}''), def_type = None,
                           def_name = None\<rparr> None"
  have h: "LBRACE \<notin> set (rawURL ?r)" by code_simp
  have c: "urlParams ?r = Inr []"
    using urlParams_placeholders_in_order[of ?r] h by blast
  have n: "placeholderNames (rawURL ?q) = [js ''id'', js ''id'', js ''x.y'']" by code_simp
  have d: "urlParams ?q = Inr [js ''id'', js ''id'', js ''x.y'']"
    using urlParams_placeholders_in_order[of ?q] n by simp
  show ?thesis using h c d by blast
qed

text \<open>
  Claim C8. Resolving a template with an empty route-params map returns the template
  unchanged, whatever the template is.
\<close>

theorem replaceURLParams_empty_params_identity:
  "routeParams r = [] \<Longrightarrow> replaceURLParams r = Inr (rawURL r) \<and> url r = Inr (rawURL r)"
  by (simp add: url_def replaceURLParams_def urlParams_placeholderNames)

text \<open>Instance: \<open>/users/{id}\<close> resolved with the empty map.\<close>

theorem replaceURLParams_empty_params_identity_witness:
  "routeParams (CustomRoute \<lparr>def_url = Some (js ''/users/{id}''), def_type = None,
                             def_name = None\<rparr> (Some [])) = [] \<and>
   url (CustomRoute \<lparr>def_url = Some (js ''/users/{id}''), def_type = None,
                     def_name = None\<rparr> (Some [])) = Inr (js ''/users/{id}'')"
proof -
  let ?r = "CustomRoute \<lparr>def_url = Some (js ''/users/{id}''), def_type = None,
                             def_name = None\<rparr> (Some [])"
  have h: "routeParams ?r = []" by (simp add: CustomRoute_def)
  have u: "rawURL ?r = js ''/users/{id}''" by (simp add: CustomRoute_def rawURL_def)
  have "url ?r = Inr (rawURL ?r)"
    using replaceURLParams_empty_params_identity[OF h] by blast
  with h u show ?thesis by simp
qed


text \<open>
  The members of \<open>Object.prototype\<close> are within reach of the lookup: with non-empty params
  that do not bind the name, \<open>{hasOwnProperty}\<close> raises a TypeError, \<open>{constructor}\<close> stays as
  it is and \<open>{toString}\<close> becomes \<open>[object Undefined]\<close>.
\<close>

lemma replaceURLParams_inherited_members:
  "replaceURLParams
     (CustomRoute \<lparr>def_url = Some (js ''/x/{hasOwnProperty}''), def_type = None,
                   def_name = None\<rparr> (Some [(js ''id'', js ''1'')])) = Inl TypeError \<and>
   replaceURLParams
     (CustomRoute \<lparr>def_url = Some (js ''/x/{constructor}''), def_type = None,
                   def_name = None\<rparr> (Some [(js ''id'', js ''1'')])) = Inr (js ''/x/{constructor}'') \<and>
   replaceURLParams
     (CustomRoute \<lparr>def_url = Some (js ''/x/{toString}''), def_type = None,
                   def_name = None\<rparr> (Some [(js ''id'', js ''1'')])) = Inr (js ''/x/[object Undefined]'')"
  by code_simp



text \<open>
  Claim C2 as stated has the value of the earlier call win on a collision. It does not:
  after \<open>withData({a: 1})\<close> and \<open>withData({a: 2})\<close> the accumulated \<open>a\<close> is \<open>2\<close>.
\<close>

theorem withData_collision_counterexample:
  "getProp (requestData (withData (withData exampleInstance [(js ''a'', JNum 1)])
                                  [(js ''a'', JNum 2)])) (js ''a'') = JNum 2 \<and>
   getProp (requestData (withData (withData exampleInstance [(js ''a'', JNum 1)])
                                  [(js ''a'', JNum 2)])) (js ''a'') \<noteq> JNum 1"
  by code_simp

text \<open>
  Claim C2, amended. After \<open>withData(d1)\<close> then \<open>withData(d2)\<close> the accumulated request data
  is the deep merge in which the incoming data is the destination: a key that \<open>d2\<close> holds
  with a defined scalar value has that value afterwards (the later call wins), and a key
  that \<open>d2\<close> lacks keeps the defined scalar value accumulated before.
\<close>

theorem withData_incoming_precedence:
  "requestData (withData (withData this d1) d2)
     = defaultsDeep d2 (defaultsDeep d1 (requestData this)) \<and>
   (isDefinedScalar (getProp d2 k) \<longrightarrow>
      getProp (requestData (withData (withData this d1) d2)) k = getProp d2 k) \<and>
   (getProp d2 k' = JUndefined \<and> isDefinedScalar (getProp (requestData (withData this d1)) k') \<longrightarrow>
      getProp (requestData (withData (withData this d1) d2)) k'
        = getProp (requestData (withData this d1)) k')"
  by (simp add: withData_def defaultsDeep_keeps defaultsDeep_fills)

text \<open>Instance: \<open>{a: 1, b: 5}\<close> followed by \<open>{a: 2}\<close> accumulates \<open>a = 2\<close> and \<open>b = 5\<close>.\<close>

theorem withData_incoming_precedence_witness:
  "isDefinedScalar (getProp [(js ''a'', JNum 2)] (js ''a'')) \<and>
   getProp [(js ''a'', JNum 2)] (js ''b'') = JUndefined \<and>
   isDefinedScalar (getProp (requestData (withData exampleInstance
                                [(js ''a'', JNum 1), (js ''b'', JNum 5)])) (js ''b'')) \<and>
   getProp (requestData (withData (withData exampleInstance
                                [(js ''a'', JNum 1), (js ''b'', JNum 5)]) [(js ''a'', JNum 2)])) (js ''a'')
     = JNum 2 \<and>
   getProp (requestData (withData (withData exampleInstance
                                [(js ''a'', JNum 1), (js ''b'', JNum 5)]) [(js ''a'', JNum 2)])) (js ''b'')
     = JNum 5"
proof -
  let ?d1 = "[(js ''a'', JNum 1), (js ''b'', JNum 5)]"
  let ?d2 = "[(js ''a'', JNum 2)]"
  have h1: "isDefinedScalar (getProp ?d2 (js ''a''))" by code_simp
  have h2: "getProp ?d2 (js ''b'') = JUndefined" by code_simp
  have h3: "isDefinedScalar (getProp (requestData (withData exampleInstance ?d1)) (js ''b''))"
    by code_simp
  have v1: "getProp ?d2 (js ''a'') = JNum 2" by code_simp
  have v2: "getProp (requestData (withData exampleInstance ?d1)) (js ''b'') = JNum 5" by code_simp
  note t = withData_incoming_precedence[of exampleInstance ?d1 ?d2 "js ''a''" "js ''b''"]
  have "getProp (requestData (withData (withData exampleInstance ?d1) ?d2)) (js ''a'')
          = getProp ?d2 (js ''a'')"
    using t h1 by blast
  then have a: "getProp (requestData (withData (withData exampleInstance ?d1) ?d2)) (js ''a'') = JNum 2"
    by (simp only: v1)
  have "getProp (requestData (withData (withData exampleInstance ?d1) ?d2)) (js ''b'')
          = getProp (requestData (withData exampleInstance ?d1)) (js ''b'')"
    using t h2 h3 by blast
  then have b: "getProp (requestData (withData (withData exampleInstance ?d1) ?d2)) (js ''b'') = JNum 5"
    by (simp only: v2)
  show ?thesis using h1 h2 h3 a b by blast
qed

text \<open>
  Claim C3. For every type whose lower-cased form is not in the configured allow-list,
  \<open>request\<close> throws at once: it returns no promise, and the instance is as it was, so
  neither the \<open>beforeRequest\<close> hook nor the transport nor the fake request has been called.
\<close>

theorem request_disallowed_type_throws:
  "toLowerCase env ty \<notin> set (allowedRequestTypes (config this)) \<Longrightarrow>
     request env this ty u = (this, Inl RequestTypeNotAllowed) \<and>
     calls (fst (request env this ty u)) = calls this"
  by (simp add: request_def isAllowedRequestType_def)

text \<open>Instance: \<open>DELETE\<close> where only \<open>get\<close> and \<open>post\<close> are allowed.\<close>

theorem request_disallowed_type_throws_witness:
  "toLowerCase exampleCollaborators (js ''DELETE'') \<notin> set (allowedRequestTypes (config exampleInstance)) \<and>
   request exampleCollaborators exampleInstance (js ''DELETE'') (js ''/users'')
     = (exampleInstance, Inl RequestTypeNotAllowed)"
proof -
  have h: "toLowerCase exampleCollaborators (js ''DELETE'')
             \<notin> set (allowedRequestTypes (config exampleInstance))"
    by code_simp
  from request_disallowed_type_throws[OF h, of "js ''/users''"] h show ?thesis by blast
qed




text \<open>When the transport call throws, the promise is rejected at once and nothing is reset.\<close>

lemma request_transport_throws:
  "toLowerCase env ty \<in> set (allowedRequestTypes (config this)) \<Longrightarrow> \<not> debug (config this) \<Longrightarrow>
   http env (toLowerCase env ty) (sanitizeUrl env u (trailingSlash (config this)))
     (parseRequestData env (toLowerCase env ty) (requestData this) (config this)) = Some e \<Longrightarrow>
     request env this ty u =
       (this\<lparr>calls := calls this @
          [BeforeRequestHook (toLowerCase env ty) u,
           HttpCall (toLowerCase env ty) (sanitizeUrl env u (trailingSlash (config this)))
             (parseRequestData env (toLowerCase env ty) (requestData this) (config this))]\<rparr>,
        Inr (Failed e))"
  by (simp add: request_def Let_def beforeRequest_def isAllowedRequestType_def)

text \<open>
  Claim C5. For every name that the table of custom routes does not hold, and whatever
  the route params, \<open>getCustomRoute\<close> returns a route whose \<open>url\<close> is the empty string, read
  without error, whose \<open>type\<close> is \<open>GET\<close> and whose \<open>name\<close> is the empty string.
\<close>

theorem getCustomRoute_unknown_name:
  "n \<notin> fst ` set (customRoutes this) \<Longrightarrow>
     url (getCustomRoute this n rps) = Inr [] \<and>
     type (getCustomRoute this n rps) = js ''GET'' \<and>
     name (getCustomRoute this n rps) = []"
proof -
  assume "n \<notin> fst ` set (customRoutes this)"
  then have g: "getCustomRoute this n rps = CustomRoute emptyDefinition None"
    by (rule getCustomRoute_unknown)
  show ?thesis unfolding g
    by (simp add: url_empty_route) (simp add: type_def name_def CustomRoute_def emptyDefinition_def)
qed

text \<open>Instance: the name \<open>missingName\<close>, with route params supplied.\<close>

theorem getCustomRoute_unknown_name_witness:
  "js ''missingName'' \<notin> fst ` set (customRoutes exampleInstance) \<and>
   url (getCustomRoute exampleInstance (js ''missingName'') [(js ''id'', js ''42'')]) = Inr [] \<and>
   type (getCustomRoute exampleInstance (js ''missingName'') [(js ''id'', js ''42'')]) = js ''GET'' \<and>
   name (getCustomRoute exampleInstance (js ''missingName'') [(js ''id'', js ''42'')]) = []"
proof -
  have h: "js ''missingName'' \<notin> fst ` set (customRoutes exampleInstance)"
    by code_simp
  from getCustomRoute_unknown_name[OF h, of "[(js ''id'', js ''42'')]"] h show ?thesis by blast
qed



text \<open>
  Claim C9. When positional parameters are pending, \<open>buildRequest\<close>, and with it each verb
  method, makes the request to the URL built from the pending parameters followed by
  the supplied ones, on an instance whose pending parameters have been cleared
  beforehand; afterwards none are pending, and the next request built uses the
  parameters it is given and nothing else.
\<close>

theorem buildRequest_consumes_pending_urlParams:
  "pendingUrlParams this = Some pending \<Longrightarrow>
     buildRequest env this ty params =
       request env (resetURLParams this) ty (makeUrl env (config this) (pending @ params)) \<and>
     pendingUrlParams (resetURLParams this) = None \<and>
     pendingUrlParams (fst (buildRequest env this ty params)) = None \<and>
     buildRequest env (fst (buildRequest env this ty params)) ty' params' =
       request env (fst (buildRequest env this ty params)) ty' (makeUrl env (config this) params') \<and>
     (ty \<in> set (allowedRequestTypes (config this)) \<longrightarrow>
        callableRequestMethod env this ty params =
          request env (resetURLParams this) ty (makeUrl env (config this) (pending @ params)))"
proof -
  assume p: "pendingUrlParams this = Some pending"
  have b: "buildRequest env this ty params =
       request env (resetURLParams this) ty (makeUrl env (config this) (pending @ params))"
    using p by (simp add: buildRequest_def Let_def resetURLParams_def)
  have n: "pendingUrlParams (fst (buildRequest env this ty params)) = None"
    unfolding b by (simp add: request_keeps resetURLParams_def)
  have c: "config (fst (buildRequest env this ty params)) = config this"
    unfolding b by (simp add: request_keeps resetURLParams_def)
  show ?thesis using b n c
    by (simp add: callableRequestMethod_def) (simp add: buildRequest_def resetURLParams_def)
qed

text \<open>Instance: \<open>get(42)\<close> while \<open>users\<close> is pending.\<close>

theorem buildRequest_consumes_pending_urlParams_witness:
  "pendingUrlParams exampleInstance = Some [JStr (js ''users'')] \<and>
   js ''get'' \<in> set (allowedRequestTypes (config exampleInstance)) \<and>
   callableRequestMethod exampleCollaborators exampleInstance (js ''get'') [JStr (js ''42'')]
     = request exampleCollaborators (resetURLParams exampleInstance) (js ''get'')
         (makeUrl exampleCollaborators (config exampleInstance)
            ([JStr (js ''users'')] @ [JStr (js ''42'')])) \<and>
   calls (fst (callableRequestMethod exampleCollaborators exampleInstance (js ''get'') [JStr (js ''42'')]))
     = [ResetURLParamsCall, BeforeRequestHook (js ''get'') (js ''users/42''),
        HttpCall (js ''get'') (js ''users/42'') [JObj emptyRequestData]] \<and>
   pendingUrlParams (fst (buildRequest exampleCollaborators exampleInstance (js ''get'') [JStr (js ''42'')]))
     = None"
proof -
  have h1: "pendingUrlParams exampleInstance = Some [JStr (js ''users'')]"
    by (simp add: exampleInstance_def)
  have h2: "js ''get'' \<in> set (allowedRequestTypes (config exampleInstance))" by code_simp
  note t = buildRequest_consumes_pending_urlParams[OF h1, of exampleCollaborators "js ''get''" "[JStr (js ''42'')]"]
  have a: "callableRequestMethod exampleCollaborators exampleInstance (js ''get'') [JStr (js ''42'')]
     = request exampleCollaborators (resetURLParams exampleInstance) (js ''get'')
         (makeUrl exampleCollaborators (config exampleInstance)
            ([JStr (js ''users'')] @ [JStr (js ''42'')]))"
    using t h2 by blast
  have b: "pendingUrlParams (fst (buildRequest exampleCollaborators exampleInstance (js ''get'') [JStr (js ''42'')]))
     = None"
    using t by blast
  have c: "calls (fst (callableRequestMethod exampleCollaborators exampleInstance (js ''get'') [JStr (js ''42'')]))
     = [ResetURLParamsCall, BeforeRequestHook (js ''get'') (js ''users/42''),
        HttpCall (js ''get'') (js ''users/42'') [JObj emptyRequestData]]"
    by code_simp
  show ?thesis using h1 h2 a b c by blast
qed

text \<open>
  Claim C10. In debug mode, for an allowed type, \<open>request\<close> calls the \<open>beforeRequest\<close> hook,
  then the fake request, and returns what the fake request returned: the transport is
  not called, neither reset nor the \<open>afterRequest\<close> and \<open>onError\<close> hooks run, and the request
  data and the pending positional parameters are unchanged.
\<close>

theorem request_debug_short_circuit:
  "debug (config this) \<Longrightarrow> toLowerCase env ty \<in> set (allowedRequestTypes (config this)) \<Longrightarrow>
     request env this ty u =
       (this\<lparr>calls := calls this @ [BeforeRequestHook (toLowerCase env ty) u,
                                     FakeRequestCall (toLowerCase env ty) u]\<rparr>,
        Inr (FakeResult (fakeRequest env (toLowerCase env ty) u))) \<and>
     requestData (fst (request env this ty u)) = requestData this \<and>
     pendingUrlParams (fst (request env this ty u)) = pendingUrlParams this"
  by (simp add: request_def isAllowedRequestType_def beforeRequest_def Let_def)

text \<open>Instance: \<open>POST\<close> to \<open>/users\<close> on the example instance switched to debug mode.\<close>

theorem request_debug_short_circuit_witness:
  "debug (config (exampleInstance\<lparr>config := exampleConfig\<lparr>debug := True\<rparr>\<rparr>)) \<and>
   toLowerCase exampleCollaborators (js ''POST'')
     \<in> set (allowedRequestTypes (config (exampleInstance\<lparr>config := exampleConfig\<lparr>debug := True\<rparr>\<rparr>))) \<and>
   request exampleCollaborators (exampleInstance\<lparr>config := exampleConfig\<lparr>debug := True\<rparr>\<rparr>)
       (js ''POST'') (js ''/users'')
     = (exampleInstance\<lparr>config := exampleConfig\<lparr>debug := True\<rparr>,
                        calls := [BeforeRequestHook (js ''post'') (js ''/users''),
                                  FakeRequestCall (js ''post'') (js ''/users'')]\<rparr>,
        Inr (FakeResult (JStr (js ''/users''))))"
proof -
  let ?inst = "exampleInstance\<lparr>config := exampleConfig\<lparr>debug := True\<rparr>\<rparr>"
  have h1: "debug (config ?inst)" by simp
  have h2: "toLowerCase exampleCollaborators (js ''POST'') \<in> set (allowedRequestTypes (config ?inst))"
    by code_simp
  have l: "toLowerCase exampleCollaborators (js ''POST'') = js ''post''" by code_simp
  have f: "fakeRequest exampleCollaborators (js ''post'') (js ''/users'') = JStr (js ''/users'')"
    by (simp add: exampleCollaborators_def)
  have c: "calls ?inst = []" by (simp add: exampleInstance_def)
  from request_debug_short_circuit[OF h1 h2, of "js ''/users''"]
  have "request exampleCollaborators ?inst (js ''POST'') (js ''/users'') =
       (?inst\<lparr>calls := calls ?inst @ [BeforeRequestHook (toLowerCase exampleCollaborators (js ''POST'')) (js ''/users''),
                                     FakeRequestCall (toLowerCase exampleCollaborators (js ''POST'')) (js ''/users'')]\<rparr>,
        Inr (FakeResult (fakeRequest exampleCollaborators (toLowerCase exampleCollaborators (js ''POST'')) (js ''/users''))))"
    by blast
  then have "request exampleCollaborators ?inst (js ''POST'') (js ''/users'') =
       (?inst\<lparr>calls := [BeforeRequestHook (js ''post'') (js ''/users''),
                                     FakeRequestCall (js ''post'') (js ''/users'')]\<rparr>,
        Inr (FakeResult (JStr (js ''/users''))))"
    by (simp only: l f c append_Nil)
  then show ?thesis using h1 h2 by simp
qed

end
